theory Spec2Isabelle
  imports Main
begin

section \<open>Python values and exceptions\<close>

text \<open>
  The values that cross the interfaces of \<^verbatim>\<open>youtube.py\<close> and \<^verbatim>\<open>get_top_tracks.py\<close>:
  \<^verbatim>\<open>None\<close>, booleans, integers, strings, lists and dictionaries. A dictionary is an
  association list in insertion order; \<open>map_of\<close> is the lookup.
\<close>

datatype pyval =
    PyNone
  | PyBool bool
  | PyInt int
  | PyStr string
  | PyList "pyval list"
  | PyDict "(string \<times> pyval) list"

type_synonym pydict = "(string \<times> pyval) list"

text \<open>Python's truth value of an object, as tested by \<^verbatim>\<open>if x:\<close> and \<^verbatim>\<open>not x\<close>.\<close>

fun truthy :: "pyval \<Rightarrow> bool" where
  "truthy PyNone = False"
| "truthy (PyBool b) = b"
| "truthy (PyInt i) = (i \<noteq> 0)"
| "truthy (PyStr s) = (s \<noteq> [])"
| "truthy (PyList xs) = (xs \<noteq> [])"
| "truthy (PyDict kvs) = (kvs \<noteq> [])"

text \<open>
  Exceptions derived from Python's \<^verbatim>\<open>Exception\<close> class: the ones a handler
  \<^verbatim>\<open>except Exception\<close> catches. \<open>SourceError\<close> stands for whatever the external
  library or a media source raises, with its message.
\<close>

datatype exn =
    ZeroDivisionError
  | KeyError string
  | TypeError
  | AttributeError
  | SourceError string

text \<open>\<^verbatim>\<open>d.get(k, default)\<close> and the dictionary display \<^verbatim>\<open>{**d, k: v}\<close>.\<close>

definition dict_get :: "pydict \<Rightarrow> string \<Rightarrow> pyval \<Rightarrow> pyval" where
  "dict_get d k dflt = (case map_of d k of None \<Rightarrow> dflt | Some v \<Rightarrow> v)"

fun dict_set :: "pydict \<Rightarrow> string \<Rightarrow> pyval \<Rightarrow> pydict" where
  "dict_set [] k v = [(k, v)]"
| "dict_set (p # ps) k v = (if fst p = k then (k, v) # ps else p # dict_set ps k v)"

text \<open>\<^verbatim>\<open>xs[offset:]\<close>: a negative start counts from the end and is clamped at 0.\<close>

definition slice_from :: "int \<Rightarrow> 'a list \<Rightarrow> 'a list" where
  "slice_from offset xs =
     (if 0 \<le> offset then drop (nat offset) xs
      else drop (length xs - nat (- offset)) xs)"

text \<open>\<^verbatim>\<open>str(i)\<close> for an integer, as the f-string of the search request formats it.\<close>

fun digits :: "nat \<Rightarrow> string" where
  "digits n =
     (if n < 10 then [''0123456789'' ! n]
      else digits (n div 10) @ [''0123456789'' ! (n mod 10)])"

definition str_int :: "int \<Rightarrow> string" where
  "str_int i = (if i < 0 then CHR ''-'' # digits (nat (- i)) else digits (nat i))"

section \<open>youtube.py: YouTubeAPI.search\<close>

text \<open>
  \<open>ydl opts url dl\<close> stands for the external call
  \<^verbatim>\<open>yt_dlp.YoutubeDL(opts).extract_info(url, download=dl)\<close>: it raises (\<open>Inl\<close>) or
  returns \<^verbatim>\<open>None\<close> or an info dictionary. The library is not part of the repository, so
  it is a parameter of the model.
\<close>

type_synonym ydl = "pydict \<Rightarrow> string \<Rightarrow> bool \<Rightarrow> exn + pydict option"

text \<open>\<^verbatim>\<open>self.ydl_opts\<close>, set in \<^verbatim>\<open>__init__\<close> and never changed.\<close>

definition ydl_opts :: pydict where
  "ydl_opts =
     [(''format'', PyStr ''bestaudio/best''),
      (''postprocessors'',
         PyList [PyDict [(''key'', PyStr ''FFmpegExtractAudio''),
                         (''preferredcodec'', PyStr ''mp3''),
                         (''preferredquality'', PyStr ''192'')]]),
      (''outtmpl'', PyStr ''%(title)s.%(ext)s''),
      (''quiet'', PyBool True),
      (''no_warnings'', PyBool True),
      (''extract_flat'', PyBool False)]"

definition search_opts :: "int \<Rightarrow> int \<Rightarrow> pydict" where
  "search_opts limit offset =
     dict_set (dict_set (dict_set (dict_set ydl_opts
       ''extract_flat'' (PyBool True))
       ''quiet'' (PyBool True))
       ''no_warnings'' (PyBool True))
       ''playlistend'' (PyInt (limit + offset))"

definition search_url :: "string \<Rightarrow> int \<Rightarrow> int \<Rightarrow> string" where
  "search_url query limit offset = ''ytsearch'' @ str_int (limit + offset) @ '':'' @ query"

text \<open>The dictionary appended to \<^verbatim>\<open>videos\<close> for one entry.\<close>

definition video_of :: "pydict \<Rightarrow> pydict" where
  "video_of entry =
     [(''title'', dict_get entry ''title'' (PyStr [])),
      (''url'', dict_get entry ''url'' (PyStr [])),
      (''duration'', dict_get entry ''duration'' (PyInt 0)),
      (''id'', dict_get entry ''id'' (PyStr []))]"

text \<open>
  The loop over \<^verbatim>\<open>results['entries'][offset:]\<close>. A falsy entry (\<^verbatim>\<open>None\<close>, an empty
  dictionary) is skipped; a truthy entry that is not a dictionary has no \<^verbatim>\<open>get\<close>,
  which raises \<^verbatim>\<open>AttributeError\<close>.
\<close>

fun videos_of :: "pyval list \<Rightarrow> exn + pydict list" where
  "videos_of [] = Inr []"
| "videos_of (entry # rest) =
     (if truthy entry then
        (case entry of
           PyDict d \<Rightarrow>
             (case videos_of rest of
                Inl e \<Rightarrow> Inl e
              | Inr vs \<Rightarrow> Inr (video_of d # vs))
         | _ \<Rightarrow> Inl AttributeError)
      else videos_of rest)"

text \<open>
  The body of the \<^verbatim>\<open>try\<close> block of \<^verbatim>\<open>search\<close>. A value under \<^verbatim>\<open>'entries'\<close> that is
  not a list cannot be sliced and iterated into dictionaries: the model raises
  \<^verbatim>\<open>TypeError\<close> there.
\<close>

definition search_body :: "ydl \<Rightarrow> string \<Rightarrow> int \<Rightarrow> int \<Rightarrow> exn + pydict list" where
  "search_body y query limit offset =
     (case y (search_opts limit offset) (search_url query limit offset) False of
        Inl e \<Rightarrow> Inl e
      | Inr results \<Rightarrow>
          (case results of
             None \<Rightarrow> Inr []
           | Some info \<Rightarrow>
               if info = [] \<or> map_of info ''entries'' = None then Inr []
               else
                 (case map_of info ''entries'' of
                    Some (PyList entries) \<Rightarrow> videos_of (slice_from offset entries)
                  | _ \<Rightarrow> Inl TypeError)))"

text \<open>
  \<^verbatim>\<open>search\<close> itself: the handler \<^verbatim>\<open>except Exception\<close> prints the error and returns the
  empty list. Printing is not modelled.
\<close>

definition youtube_search :: "ydl \<Rightarrow> string \<Rightarrow> int \<Rightarrow> int \<Rightarrow> pydict list" where
  "youtube_search y query limit offset =
     (case search_body y query limit offset of
        Inl e \<Rightarrow> []
      | Inr videos \<Rightarrow> videos)"

section \<open>get_top_tracks.py\<close>

definition DATASETS_DIR :: string where
  "DATASETS_DIR = ''F:/datasets''"

definition MAX_WORKERS :: int where
  "MAX_WORKERS = 4"

definition BATCH_SIZE :: int where
  "BATCH_SIZE = 50"

text \<open>
  The \<^verbatim>\<open>youtube\<close> argument of \<^verbatim>\<open>download_genre_tracks\<close>: an object with a
  \<^verbatim>\<open>search(query, limit, offset)\<close> and a \<^verbatim>\<open>download(url, output_dir)\<close> method. The
  outcome of each call is taken as a function of its arguments; \<open>Inl\<close> is an exception
  leaving the call.
\<close>

record source =
  search :: "string \<Rightarrow> int \<Rightarrow> int \<Rightarrow> exn + pydict list"
  download :: "pyval \<Rightarrow> string \<Rightarrow> exn + pyval"

text \<open>
  The instance built by \<^verbatim>\<open>YouTubeAPI()\<close> has the \<^verbatim>\<open>search\<close> above, which always
  returns a list. Its \<^verbatim>\<open>download\<close> is kept as a parameter.
\<close>

definition YouTubeAPI :: "ydl \<Rightarrow> (pyval \<Rightarrow> string \<Rightarrow> exn + pyval) \<Rightarrow> source" where
  "YouTubeAPI y d = \<lparr>search = (\<lambda>query limit offset. Inr (youtube_search y query limit offset)),
                    download = d\<rparr>"

text \<open>\<^verbatim>\<open>str(Path(DATASETS_DIR) / genre)\<close>, for a relative genre name.\<close>

definition output_dir_of :: "string \<Rightarrow> string" where
  "output_dir_of genre = DATASETS_DIR @ ''/'' @ genre"

text \<open>Line 74: \<^verbatim>\<open>tracks_per_term = count // len(search_terms)\<close>.\<close>

definition tracks_per_term :: "int \<Rightarrow> string list \<Rightarrow> exn + int" where
  "tracks_per_term count search_terms =
     (if length search_terms = 0 then Inl ZeroDivisionError
      else Inr (count div int (length search_terms)))"

subsection \<open>Lines 102 to 115: the thread pool\<close>

text \<open>
  The first loop submits one \<^verbatim>\<open>youtube.download(video["url"], output_dir)\<close> per video;
  \<^verbatim>\<open>video["url"]\<close> raises \<^verbatim>\<open>KeyError\<close> when the key is missing. A future is modelled
  by the outcome of its call.
\<close>

fun submit_all :: "source \<Rightarrow> string \<Rightarrow> pydict list \<Rightarrow> exn + (exn + pyval) list" where
  "submit_all src out [] = Inr []"
| "submit_all src out (video # rest) =
     (case map_of video ''url'' of
        None \<Rightarrow> Inl (KeyError ''url'')
      | Some url \<Rightarrow>
          (case submit_all src out rest of
             Inl e \<Rightarrow> Inl e
           | Inr futures \<Rightarrow> Inr (download src url out # futures)))"

text \<open>
  The second loop: \<^verbatim>\<open>future.result()\<close> returns the value of the call or raises its
  exception again; a truthy value increments \<^verbatim>\<open>downloaded\<close>.
\<close>

fun wait_all :: "int \<Rightarrow> (exn + pyval) list \<Rightarrow> exn + int" where
  "wait_all downloaded [] = Inr downloaded"
| "wait_all downloaded (future # rest) =
     (case future of
        Inl e \<Rightarrow> Inl e
      | Inr r \<Rightarrow> wait_all (if truthy r then downloaded + 1 else downloaded) rest)"

definition dispatch :: "source \<Rightarrow> string \<Rightarrow> int \<Rightarrow> pydict list \<Rightarrow> exn + int" where
  "dispatch src out downloaded results =
     (case submit_all src out results of
        Inl e \<Rightarrow> Inl e
      | Inr futures \<Rightarrow> wait_all downloaded futures)"

subsection \<open>Lines 83 to 118: the loop of one search term\<close>

text \<open>
  The loop variables \<^verbatim>\<open>downloaded\<close> and \<^verbatim>\<open>batch\<close>, and the arguments
  \<open>(term, limit, offset)\<close> of every \<^verbatim>\<open>youtube.search\<close> call made so far, oldest first.
\<close>

record loop_state =
  downloaded :: int
  batch :: int
  calls :: "(string \<times> int \<times> int) list"

definition init_state :: loop_state where
  "init_state = \<lparr>downloaded = 0, batch = 0, calls = []\<rparr>"

datatype control = Break | Continue

text \<open>One pass through the body of \<^verbatim>\<open>while downloaded < tracks_per_term\<close>.\<close>

definition loop_body ::
  "source \<Rightarrow> string \<Rightarrow> string \<Rightarrow> int \<Rightarrow> loop_state \<Rightarrow> exn + control \<times> loop_state" where
  "loop_body src out term tpt s =
     (let remaining = tpt - downloaded s;
          current_batch = min BATCH_SIZE remaining;
          offset = batch s * BATCH_SIZE;
          s1 = s\<lparr>calls := calls s @ [(term, current_batch, offset)]\<rparr>
      in case search src term current_batch offset of
           Inl e \<Rightarrow> Inl e
         | Inr results \<Rightarrow>
             if results = [] then Inr (Break, s1)
             else
               (case dispatch src out (downloaded s1) results of
                  Inl e \<Rightarrow> Inl e
                | Inr d \<Rightarrow> Inr (Continue, s1\<lparr>downloaded := d, batch := batch s1 + 1\<rparr>)))"

text \<open>
  The loop, with a bound on the number of passes: \<open>None\<close> when the bound is reached
  with the condition still true, \<open>Some (Inl e)\<close> when \<open>e\<close> is raised, \<open>Some (Inr s)\<close>
  when the loop ends in state \<open>s\<close>.
\<close>

fun while_loop ::
  "nat \<Rightarrow> source \<Rightarrow> string \<Rightarrow> string \<Rightarrow> int \<Rightarrow> loop_state \<Rightarrow> (exn + loop_state) option" where
  "while_loop 0 src out term tpt s =
     (if downloaded s < tpt then None else Some (Inr s))"
| "while_loop (Suc n) src out term tpt s =
     (if downloaded s < tpt then
        (case loop_body src out term tpt s of
           Inl e \<Rightarrow> Some (Inl e)
         | Inr (Break, s') \<Rightarrow> Some (Inr s')
         | Inr (Continue, s') \<Rightarrow> while_loop n src out term tpt s')
      else Some (Inr s))"

text \<open>The states in which the loop condition is evaluated.\<close>

inductive loop_head :: "source \<Rightarrow> string \<Rightarrow> string \<Rightarrow> int \<Rightarrow> loop_state \<Rightarrow> bool"
  for src out t tpt where
  start: "loop_head src out t tpt init_state"
| pass: "loop_head src out t tpt s \<Longrightarrow> downloaded s < tpt \<Longrightarrow>
         loop_body src out t tpt s = Inr (Continue, s') \<Longrightarrow>
         loop_head src out t tpt s'"

subsection \<open>Lines 59 to 118 and 120 to 138: terms and genres\<close>

text \<open>
  \<^verbatim>\<open>for term in search_terms\<close>: every term starts from \<open>init_state\<close>. The functions of
  the source return nothing; the model returns the final loop state of every term.
\<close>

fun term_loop ::
  "nat \<Rightarrow> source \<Rightarrow> string \<Rightarrow> int \<Rightarrow> string list \<Rightarrow> (exn + (string \<times> loop_state) list) option" where
  "term_loop fuel src out tpt [] = Some (Inr [])"
| "term_loop fuel src out tpt (term # rest) =
     (case while_loop fuel src out term tpt init_state of
        None \<Rightarrow> None
      | Some (Inl e) \<Rightarrow> Some (Inl e)
      | Some (Inr s) \<Rightarrow>
          (case term_loop fuel src out tpt rest of
             None \<Rightarrow> None
           | Some (Inl e) \<Rightarrow> Some (Inl e)
           | Some (Inr rs) \<Rightarrow> Some (Inr ((term, s) # rs))))"

definition download_genre_tracks ::
  "nat \<Rightarrow> source \<Rightarrow> string \<Rightarrow> string list \<Rightarrow> int \<Rightarrow> (exn + (string \<times> loop_state) list) option" where
  "download_genre_tracks fuel src genre search_terms count =
     (case tracks_per_term count search_terms of
        Inl e \<Rightarrow> Some (Inl e)
      | Inr tpt \<Rightarrow> term_loop fuel src (output_dir_of genre) tpt search_terms)"

text \<open>
  One value of the \<^verbatim>\<open>genres\<close> dictionary, with both keys present:
  \<^verbatim>\<open>config["search_terms"]\<close> and \<^verbatim>\<open>config["count"]\<close>.
\<close>

record config =
  cfg_search_terms :: "string list"
  cfg_count :: int

text \<open>
  \<^verbatim>\<open>main\<close>: the loop over \<^verbatim>\<open>genres.items()\<close>. Loading the JSON file and creating the
  directories are left out; the media source is an argument.
\<close>

fun main ::
  "nat \<Rightarrow> source \<Rightarrow> (string \<times> config) list \<Rightarrow>
   (exn + (string \<times> (string \<times> loop_state) list) list) option" where
  "main fuel src [] = Some (Inr [])"
| "main fuel src ((genre, cfg) # rest) =
     (case download_genre_tracks fuel src genre (cfg_search_terms cfg) (cfg_count cfg) of
        None \<Rightarrow> None
      | Some (Inl e) \<Rightarrow> Some (Inl e)
      | Some (Inr r) \<Rightarrow>
          (case main fuel src rest of
             None \<Rightarrow> None
           | Some (Inl e) \<Rightarrow> Some (Inl e)
           | Some (Inr rs) \<Rightarrow> Some (Inr ((genre, r) # rs))))"

section \<open>Properties of the environment and of a page\<close>


text \<open>
  The external library honours \<^verbatim>\<open>playlistend\<close> when the \<^verbatim>\<open>'entries'\<close> list of the
  info dictionary it returns is never longer than a non-negative \<^verbatim>\<open>playlistend\<close>
  option.
\<close>

definition honours_playlistend :: "ydl \<Rightarrow> bool" where
  "honours_playlistend y \<longleftrightarrow>
     (\<forall>opts url dl info n entries.
        y opts url dl = Inr (Some info) \<longrightarrow>
        map_of opts ''playlistend'' = Some (PyInt n) \<longrightarrow> 0 \<le> n \<longrightarrow>
        map_of info ''entries'' = Some (PyList entries) \<longrightarrow>
        int (length entries) \<le> n)"




text \<open>The limit and the offset of a recorded search call.\<close>

definition limit_of :: "string \<times> int \<times> int \<Rightarrow> int" where
  "limit_of c = fst (snd c)"

definition offset_of :: "string \<times> int \<times> int \<Rightarrow> int" where
  "offset_of c = snd (snd c)"

section \<open>Concrete media sources\<close>

text \<open>
  A media source over a fixed catalogue: \<open>search\<close> skips \<open>offset\<close> results of the
  query and returns at most \<open>limit\<close> of the rest; \<open>download\<close> succeeds with a path on
  the urls that \<open>ok\<close> accepts and returns \<^verbatim>\<open>None\<close> on the others.
\<close>

definition catalogue_source :: "(string \<Rightarrow> pydict list) \<Rightarrow> (pyval \<Rightarrow> bool) \<Rightarrow> source" where
  "catalogue_source cat ok =
     \<lparr>search = (\<lambda>query limit offset. Inr (take (nat limit) (drop (nat offset) (cat query)))),
      download = (\<lambda>url out. Inr (if ok url then PyStr (out @ ''/track.mp3'') else PyNone))\<rparr>"

definition track :: "string \<Rightarrow> pydict" where
  "track u = [(''title'', PyStr u), (''url'', PyStr u), (''duration'', PyInt 0), (''id'', PyStr u)]"

text \<open>
  Three sources over a catalogue that is the same for every query: one with three
  tracks of which the second cannot be downloaded, one with a single track that cannot
  be downloaded, and one with no track at all.
\<close>

definition three_tracks_source :: source where
  "three_tracks_source =
     catalogue_source (\<lambda>query. [track ''a'', track ''b'', track ''c'']) (\<lambda>url. url \<noteq> PyStr ''b'')"

definition one_bad_track_source :: source where
  "one_bad_track_source = catalogue_source (\<lambda>query. [track ''a'']) (\<lambda>url. False)"

definition empty_source :: source where
  "empty_source = catalogue_source (\<lambda>query. []) (\<lambda>url. True)"

text \<open>
  A media source whose first page holds one track and whose later searches raise; its
  downloads succeed.
\<close>

definition failing_source :: source where
  "failing_source =
     \<lparr>search = (\<lambda>query limit offset.
                  if offset = 0 then Inr [track ''a''] else Inl (SourceError ''unreachable'')),
      download = (\<lambda>url out. Inr (PyStr (out @ ''/track.mp3'')))\<rparr>"

text \<open>A \<^verbatim>\<open>download\<close> method that always succeeds.\<close>

definition always_downloads :: "pyval \<Rightarrow> string \<Rightarrow> exn + pyval" where
  "always_downloads url out = Inr (PyStr (out @ ''/track.mp3''))"

text \<open>
  A stand-in for the external library that knows three entries for every query and cuts
  the list at \<^verbatim>\<open>playlistend\<close>; without that option it returns \<^verbatim>\<open>None\<close>.
\<close>

definition three_entries :: ydl where
  "three_entries opts url dl =
     (case map_of opts ''playlistend'' of
        Some (PyInt n) \<Rightarrow>
          Inr (Some [(''entries'',
                 PyList (take (nat n)
                   [PyDict [(''title'', PyStr ''one''), (''url'', PyStr ''u1''), (''id'', PyStr ''1'')],
                    PyNone,
                    PyDict [(''title'', PyStr ''three''), (''url'', PyStr ''u3''), (''id'', PyStr ''3'')]]))])
      | _ \<Rightarrow> Inr None)"

text \<open>A stand-in for the external library that always raises.\<close>

definition broken_ydl :: ydl where
  "broken_ydl opts url dl = Inl (SourceError ''network'')"



section \<open>Auxiliary facts\<close>

lemmas run_simps =
  loop_body_def dispatch_def init_state_def BATCH_SIZE_def catalogue_source_def track_def
  three_tracks_source_def one_bad_track_source_def empty_source_def failing_source_def
  download_genre_tracks_def tracks_per_term_def output_dir_of_def DATASETS_DIR_def

subsection \<open>The thread pool\<close>




lemma wait_all_all_fail:
  "\<forall>f\<in>set futures. \<exists>r. f = Inr r \<and> \<not> truthy r \<Longrightarrow> wait_all d futures = Inr d"
  by (induction futures) auto


subsection \<open>Permutations\<close>




subsection \<open>The loop\<close>

lemma loop_body_Break:
  "loop_body src out t tpt s = Inr (Break, s') \<longleftrightarrow>
     search src t (min BATCH_SIZE (tpt - downloaded s)) (batch s * BATCH_SIZE) = Inr []
     \<and> s' = s\<lparr>calls := calls s @ [(t, min BATCH_SIZE (tpt - downloaded s), batch s * BATCH_SIZE)]\<rparr>"
  unfolding loop_body_def Let_def
  by (auto split: sum.splits)

lemma loop_body_Continue:
  "loop_body src out t tpt s = Inr (Continue, s') \<longleftrightarrow>
     (\<exists>results d. search src t (min BATCH_SIZE (tpt - downloaded s)) (batch s * BATCH_SIZE) = Inr results
        \<and> results \<noteq> [] \<and> dispatch src out (downloaded s) results = Inr d
        \<and> s' = \<lparr>downloaded = d, batch = batch s + 1,
                 calls = calls s @ [(t, min BATCH_SIZE (tpt - downloaded s), batch s * BATCH_SIZE)]\<rparr>)"
  unfolding loop_body_def Let_def
  by (cases s) (auto split: sum.splits)

text \<open>The bound on the passes does not change a result: more passes give the same one.\<close>

lemma while_loop_more_fuel:
  "while_loop n src out t tpt s = Some r \<Longrightarrow> while_loop (n + k) src out t tpt s = Some r"
proof (induction n arbitrary: s)
  case 0
  then show ?case by (cases k) (auto split: if_splits)
next
  case (Suc n)
  then show ?case
    by (auto split: if_splits sum.splits control.splits)
qed

lemma while_loop_result:
  "while_loop fuel src out t tpt s = Some (Inr s') \<Longrightarrow> loop_head src out t tpt s \<Longrightarrow>
   (loop_head src out t tpt s' \<and> \<not> downloaded s' < tpt)
   \<or> (\<exists>s0. loop_head src out t tpt s0 \<and> downloaded s0 < tpt
          \<and> loop_body src out t tpt s0 = Inr (Break, s'))"
proof (induction fuel arbitrary: s)
  case 0
  then show ?case by (auto split: if_splits)
next
  case (Suc n)
  show ?case
  proof (cases "downloaded s < tpt")
    case False
    with Suc.prems show ?thesis by auto
  next
    case True
    show ?thesis
    proof (cases "loop_body src out t tpt s")
      case (Inl e)
      with True Suc.prems show ?thesis by simp
    next
      case (Inr p)
      obtain c s1 where p: "p = (c, s1)" by (cases p)
      show ?thesis
      proof (cases c)
        case Break
        with True Inr p Suc.prems show ?thesis by auto
      next
        case Continue
        with True Inr p Suc.prems have "while_loop n src out t tpt s1 = Some (Inr s')" by simp
        moreover have "loop_head src out t tpt s1"
          using loop_head.pass[OF Suc.prems(2) True] Inr p Continue by simp
        ultimately show ?thesis using Suc.IH by blast
      qed
    qed
  qed
qed


lemma term_loop_results:
  "term_loop fuel src out tpt ts = Some (Inr rs) \<Longrightarrow>
   r \<in> set rs \<Longrightarrow> while_loop fuel src out (fst r) tpt init_state = Some (Inr (snd r))"
  by (induction ts arbitrary: rs) (auto split: option.splits sum.splits)

lemma term_loop_terms:
  "term_loop fuel src out tpt ts = Some (Inr rs) \<Longrightarrow> map fst rs = ts"
  by (induction ts arbitrary: rs) (auto split: option.splits sum.splits)


lemma loop_head_last_call:
  "loop_head src out t tpt s \<Longrightarrow>
   calls s = [] \<or> search src t (limit_of (last (calls s))) (offset_of (last (calls s))) \<noteq> Inr []"
proof (induction rule: loop_head.induct)
  case start
  then show ?case by (simp add: init_state_def)
next
  case (pass s s')
  then show ?case
    by (auto simp: loop_body_Continue limit_of_def offset_of_def)
qed

lemma loop_head_calls:
  "loop_head src out t tpt s \<Longrightarrow>
   batch s = int (length (calls s))
   \<and> (\<forall>k<length (calls s).
         offset_of (calls s ! k) = int k * BATCH_SIZE
         \<and> 1 \<le> limit_of (calls s ! k) \<and> limit_of (calls s ! k) \<le> BATCH_SIZE)"
proof (induction rule: loop_head.induct)
  case start
  then show ?case by (simp add: init_state_def)
next
  case (pass s s')
  from pass.hyps(3) have s': "calls s' = calls s @
      [(t, min BATCH_SIZE (tpt - downloaded s), batch s * BATCH_SIZE)]"
    and b: "batch s' = batch s + 1"
    unfolding loop_body_Continue by auto
  from pass.hyps(2) have lim: "1 \<le> min BATCH_SIZE (tpt - downloaded s)"
    by (simp add: BATCH_SIZE_def)
  from pass.IH s' b lim show ?case
    by (auto simp: nth_append less_Suc_eq limit_of_def offset_of_def)
qed

lemma while_loop_calls:
  assumes "while_loop fuel src out t tpt init_state = Some (Inr s')" and "k < length (calls s')"
  shows "offset_of (calls s' ! k) = int k * BATCH_SIZE
         \<and> 1 \<le> limit_of (calls s' ! k) \<and> limit_of (calls s' ! k) \<le> BATCH_SIZE"
  using while_loop_result [OF assms(1) loop_head.start]
proof
  assume "loop_head src out t tpt s' \<and> \<not> downloaded s' < tpt"
  with loop_head_calls [of src out t tpt s'] assms(2) show ?thesis by blast
next
  assume "\<exists>s0. loop_head src out t tpt s0 \<and> downloaded s0 < tpt
              \<and> loop_body src out t tpt s0 = Inr (Break, s')"
  then obtain s0 where h: "loop_head src out t tpt s0" and g: "downloaded s0 < tpt"
    and s': "s' = s0\<lparr>calls := calls s0 @
               [(t, min BATCH_SIZE (tpt - downloaded s0), batch s0 * BATCH_SIZE)]\<rparr>"
    unfolding loop_body_Break by blast
  from g have lim: "1 \<le> min BATCH_SIZE (tpt - downloaded s0)"
    by (simp add: BATCH_SIZE_def)
  from loop_head_calls [OF h] s' lim assms(2) show ?thesis
    by (auto simp: nth_append less_Suc_eq limit_of_def offset_of_def)
qed

lemma sum_limits:
  "k \<le> length cs \<Longrightarrow> \<forall>j<k. limit_of (cs ! j) \<le> b \<Longrightarrow>
   sum_list (map limit_of (take k cs)) \<le> int k * b
   \<and> (sum_list (map limit_of (take k cs)) = int k * b \<longleftrightarrow> (\<forall>j<k. limit_of (cs ! j) = b))"
proof (induction k)
  case 0
  then show ?case by simp
next
  case (Suc k)
  from Suc.prems have k: "k < length cs" by simp
  from Suc.prems have le: "limit_of (cs ! k) \<le> b" by simp
  from Suc.IH Suc.prems have
    ih1: "sum_list (map limit_of (take k cs)) \<le> int k * b"
    and ih2: "sum_list (map limit_of (take k cs)) = int k * b \<longleftrightarrow> (\<forall>j<k. limit_of (cs ! j) = b)"
    by simp_all
  have step: "sum_list (map limit_of (take (Suc k) cs))
                = sum_list (map limit_of (take k cs)) + limit_of (cs ! k)"
    using k by (simp add: take_Suc_conv_app_nth)
  have "int (Suc k) * b = int k * b + b" by (simp add: algebra_simps)
  with step ih1 le have bound: "sum_list (map limit_of (take (Suc k) cs)) \<le> int (Suc k) * b"
    by linarith
  have "sum_list (map limit_of (take (Suc k) cs)) = int (Suc k) * b
          \<longleftrightarrow> sum_list (map limit_of (take k cs)) = int k * b \<and> limit_of (cs ! k) = b"
    using step ih1 le \<open>int (Suc k) * b = int k * b + b\<close> by linarith
  also have "\<dots> \<longleftrightarrow> (\<forall>j<Suc k. limit_of (cs ! j) = b)"
    using ih2 by (auto simp: less_Suc_eq)
  finally show ?case using bound by blast
qed

lemma term_loop_append_raise:
  "term_loop fuel src out tpt before = Some (Inr rs) \<Longrightarrow>
   while_loop fuel src out t tpt init_state = Some (Inl e) \<Longrightarrow>
   term_loop fuel src out tpt (before @ t # after) = Some (Inl e)"
  by (induction before arbitrary: rs) (auto split: option.splits sum.splits)

lemma main_append_raise:
  "main fuel src gs = Some (Inr finished) \<Longrightarrow>
   download_genre_tracks fuel src genre (cfg_search_terms cfg) (cfg_count cfg) = Some (Inl e) \<Longrightarrow>
   main fuel src (gs @ (genre, cfg) # rest) = Some (Inl e)"
  by (induction gs arbitrary: finished) (auto split: option.splits sum.splits)

subsection \<open>The search\<close>

lemma videos_of_length: "videos_of es = Inr vs \<Longrightarrow> length vs \<le> length es"
proof (induction es arbitrary: vs)
  case Nil
  then show ?case by simp
next
  case (Cons e es)
  then show ?case
    by (cases e) (fastforce split: if_splits sum.splits)+
qed

lemma videos_of_keys:
  "videos_of es = Inr vs \<Longrightarrow> v \<in> set vs \<Longrightarrow> map fst v = [''title'', ''url'', ''duration'', ''id'']"
proof (induction es arbitrary: vs)
  case Nil
  then show ?case by simp
next
  case (Cons e es)
  then show ?case
    by (cases e) (auto simp: video_of_def split: if_splits sum.splits)
qed

lemma search_opts_playlistend:
  "map_of (search_opts limit offset) ''playlistend'' = Some (PyInt (limit + offset))"
  by (simp add: search_opts_def ydl_opts_def)

lemma search_body_entries:
  assumes "y (search_opts limit offset) (search_url query limit offset) False = Inr (Some info)"
    and "map_of info ''entries'' = Some (PyList entries)"
  shows "search_body y query limit offset = videos_of (slice_from offset entries)"
proof -
  from assms(2) have "info \<noteq> []" by auto
  with assms show ?thesis by (simp add: search_body_def)
qed

lemma search_body_cases:
  assumes "search_body y query limit offset = Inr vs"
  shows "vs = [] \<or> (\<exists>info entries.
            y (search_opts limit offset) (search_url query limit offset) False = Inr (Some info)
            \<and> map_of info ''entries'' = Some (PyList entries)
            \<and> videos_of (slice_from offset entries) = Inr vs)"
  using assms unfolding search_body_def
  by (auto split: sum.splits option.splits if_splits pyval.splits)

lemma youtube_search_cases:
  "youtube_search y query limit offset = [] \<or> (\<exists>info entries.
            y (search_opts limit offset) (search_url query limit offset) False = Inr (Some info)
            \<and> map_of info ''entries'' = Some (PyList entries)
            \<and> videos_of (slice_from offset entries) = Inr (youtube_search y query limit offset))"
proof (cases "search_body y query limit offset")
  case (Inl e)
  then show ?thesis by (simp add: youtube_search_def)
next
  case (Inr vs)
  then have "youtube_search y query limit offset = vs" by (simp add: youtube_search_def)
  with search_body_cases[OF Inr] show ?thesis by simp
qed

lemma youtube_search_length:
  assumes "honours_playlistend y" and "0 \<le> limit" and "0 \<le> offset"
  shows "int (length (youtube_search y query limit offset)) \<le> limit"
  using youtube_search_cases[of y query limit offset]
proof
  assume "youtube_search y query limit offset = []"
  with assms(2) show ?thesis by simp
next
  assume "\<exists>info entries.
            y (search_opts limit offset) (search_url query limit offset) False = Inr (Some info)
            \<and> map_of info ''entries'' = Some (PyList entries)
            \<and> videos_of (slice_from offset entries) = Inr (youtube_search y query limit offset)"
  then obtain info entries where
    call: "y (search_opts limit offset) (search_url query limit offset) False = Inr (Some info)"
    and ent: "map_of info ''entries'' = Some (PyList entries)"
    and vs: "videos_of (slice_from offset entries) = Inr (youtube_search y query limit offset)"
    by blast
  from assms(2,3) have "0 \<le> limit + offset" by simp
  with assms(1) call ent search_opts_playlistend[of limit offset]
  have "int (length entries) \<le> limit + offset"
    unfolding honours_playlistend_def by blast
  with assms(2,3) have "int (length (slice_from offset entries)) \<le> limit"
    unfolding slice_from_def by simp
  with videos_of_length[OF vs] show ?thesis by linarith
qed


lemma youtube_search_keys:
  assumes "v \<in> set (youtube_search y query limit offset)"
  shows "map fst v = [''title'', ''url'', ''duration'', ''id'']"
  using youtube_search_cases[of y query limit offset] assms videos_of_keys
  by fastforce

lemma honours_three_entries: "honours_playlistend three_entries"
  unfolding honours_playlistend_def three_entries_def
  by (auto split: option.splits pyval.splits)

section \<open>The quota of a term\<close>

text \<open>
  C2. For a target \<open>count \<ge> 0\<close> and at least one search term, the quota is
  \<open>count div n\<close> with \<open>n\<close> the number of terms (floor division), \<open>n\<close> times the quota
  is at most the target, and the loop of every term of the genre runs against that
  same quota: the state recorded for a term is the one in which its loop, started with
  that quota, ends. With a target of 100 and 3 terms the quota is 33.
\<close>

theorem quota_floor_division:
  assumes "0 \<le> count" and "search_terms \<noteq> []"
  shows "tracks_per_term count search_terms = Inr (count div int (length search_terms))
       \<and> int (length search_terms) * (count div int (length search_terms)) \<le> count
       \<and> download_genre_tracks fuel src genre search_terms count =
           term_loop fuel src (output_dir_of genre)
             (count div int (length search_terms)) search_terms
       \<and> (\<forall>rs. download_genre_tracks fuel src genre search_terms count = Some (Inr rs) \<longrightarrow>
             map fst rs = search_terms
             \<and> (\<forall>r. r \<in> set rs \<longrightarrow>
                  while_loop fuel src (output_dir_of genre) (fst r)
                    (count div int (length search_terms)) init_state = Some (Inr (snd r))))
       \<and> tracks_per_term 100 [t1, t2, t3] = Inr 33"
proof -
  let ?n = "int (length search_terms)"
  from assms(2) have n: "0 < ?n" by simp
  have quota: "tracks_per_term count search_terms = Inr (count div ?n)"
    using assms(2) by (simp add: tracks_per_term_def)
  have "?n * (count div ?n) = count - count mod ?n"
    by (simp add: minus_mod_eq_mult_div)
  moreover have "0 \<le> count mod ?n"
    using n by simp
  ultimately have bound: "?n * (count div ?n) \<le> count"
    by linarith
  have same: "download_genre_tracks fuel src genre search_terms count =
          term_loop fuel src (output_dir_of genre) (count div ?n) search_terms"
    by (simp add: download_genre_tracks_def quota)
  have each: "map fst rs = search_terms
             \<and> (\<forall>r. r \<in> set rs \<longrightarrow>
                  while_loop fuel src (output_dir_of genre) (fst r) (count div ?n) init_state
                    = Some (Inr (snd r)))"
    if "download_genre_tracks fuel src genre search_terms count = Some (Inr rs)" for rs
    using that same term_loop_terms term_loop_results by metis
  have scenario: "tracks_per_term 100 [t1, t2, t3] = Inr 33"
    by (simp add: tracks_per_term_def)
  from quota bound same each scenario show ?thesis by blast
qed

theorem quota_floor_division_witness:
  "(0::int) \<le> 100 \<and> [''rock'', ''rock band'', ''rock live''] \<noteq> []
   \<and> tracks_per_term 100 [''rock'', ''rock band'', ''rock live''] = Inr 33
   \<and> (3::int) * 33 \<le> 100
   \<and> download_genre_tracks 1 empty_source ''rock'' [''rock'', ''rock band'', ''rock live''] 100 =
       Some (Inr [(''rock'', \<lparr>downloaded = 0, batch = 0, calls = [(''rock'', 33, 0)]\<rparr>),
                  (''rock band'', \<lparr>downloaded = 0, batch = 0, calls = [(''rock band'', 33, 0)]\<rparr>),
                  (''rock live'', \<lparr>downloaded = 0, batch = 0, calls = [(''rock live'', 33, 0)]\<rparr>)])
   \<and> while_loop 1 empty_source (output_dir_of ''rock'') ''rock band'' 33 init_state =
       Some (Inr \<lparr>downloaded = 0, batch = 0, calls = [(''rock band'', 33, 0)]\<rparr>)"
proof -
  have run: "download_genre_tracks 1 empty_source ''rock''
       [''rock'', ''rock band'', ''rock live''] 100 =
       Some (Inr [(''rock'', \<lparr>downloaded = 0, batch = 0, calls = [(''rock'', 33, 0)]\<rparr>),
                  (''rock band'', \<lparr>downloaded = 0, batch = 0, calls = [(''rock band'', 33, 0)]\<rparr>),
                  (''rock live'', \<lparr>downloaded = 0, batch = 0, calls = [(''rock live'', 33, 0)]\<rparr>)])"
    by (simp add: run_simps)
  note inst = quota_floor_division [of 100 "[''rock'', ''rock band'', ''rock live'']" 1
      empty_source "''rock''" "''a''" "''b''" "''c''"]
  have target: "(0::int) \<le> 100" and nonempty: "[''rock'', ''rock band'', ''rock live''] \<noteq> []"
    by simp_all
  from inst [OF target nonempty]
  have quota: "tracks_per_term 100 [''rock'', ''rock band'', ''rock live''] = Inr 33"
    and bound: "(3::int) * 33 \<le> 100"
    by simp_all
  from inst [OF target nonempty, THEN conjunct2, THEN conjunct2, THEN conjunct2, THEN conjunct1,
      rule_format, OF run, THEN conjunct2, rule_format,
      of "(''rock band'', \<lparr>downloaded = 0, batch = 0, calls = [(''rock band'', 33, 0)]\<rparr>)"]
  have each: "while_loop 1 empty_source (output_dir_of ''rock'') ''rock band'' 33 init_state =
       Some (Inr \<lparr>downloaded = 0, batch = 0, calls = [(''rock band'', 33, 0)]\<rparr>)"
    by simp
  from target nonempty quota bound run each show ?thesis by blast
qed

section \<open>The loop of one term\<close>




text \<open>
  C3. With \<open>downloaded < tpt\<close>, the loop ends early exactly when a search returns
  the empty list: a loop that has ended has \<open>downloaded < tpt\<close> if and only if its last
  search call returned no result. An empty page ends the loop in that pass, with no
  further call and the count unchanged; an empty first page leaves the count at 0 after
  one call. A page with results whose futures all return a falsy value does not end the
  loop: the next pass searches at the next offset.
\<close>

theorem empty_page_ends_term:
  "(\<forall>fuel s'. while_loop fuel src out t tpt init_state = Some (Inr s') \<longrightarrow>
       (downloaded s' < tpt \<longleftrightarrow>
          calls s' \<noteq> [] \<and>
          search src t (limit_of (last (calls s'))) (offset_of (last (calls s'))) = Inr []))
   \<and> (\<forall>n s. downloaded s < tpt \<longrightarrow>
         search src t (min BATCH_SIZE (tpt - downloaded s)) (batch s * BATCH_SIZE) = Inr [] \<longrightarrow>
         while_loop (Suc n) src out t tpt s =
           Some (Inr (s\<lparr>calls := calls s @
                    [(t, min BATCH_SIZE (tpt - downloaded s), batch s * BATCH_SIZE)]\<rparr>)))
   \<and> (\<forall>n. 0 < tpt \<longrightarrow> search src t (min BATCH_SIZE tpt) 0 = Inr [] \<longrightarrow>
         while_loop (Suc n) src out t tpt init_state =
           Some (Inr \<lparr>downloaded = 0, batch = 0, calls = [(t, min BATCH_SIZE tpt, 0)]\<rparr>))
   \<and> (\<forall>n s results futures.
         downloaded s < tpt \<longrightarrow>
         search src t (min BATCH_SIZE (tpt - downloaded s)) (batch s * BATCH_SIZE) = Inr results \<longrightarrow>
         results \<noteq> [] \<longrightarrow>
         submit_all src out results = Inr futures \<longrightarrow>
         (\<forall>f\<in>set futures. \<exists>r. f = Inr r \<and> \<not> truthy r) \<longrightarrow>
         loop_body src out t tpt s =
           Inr (Continue, \<lparr>downloaded = downloaded s, batch = batch s + 1,
                  calls = calls s @
                    [(t, min BATCH_SIZE (tpt - downloaded s), batch s * BATCH_SIZE)]\<rparr>)
         \<and> while_loop (Suc n) src out t tpt s =
             while_loop n src out t tpt
               \<lparr>downloaded = downloaded s, batch = batch s + 1,
                calls = calls s @
                  [(t, min BATCH_SIZE (tpt - downloaded s), batch s * BATCH_SIZE)]\<rparr>
         \<and> (\<forall>c s''. loop_body src out t tpt
               \<lparr>downloaded = downloaded s, batch = batch s + 1,
                calls = calls s @
                  [(t, min BATCH_SIZE (tpt - downloaded s), batch s * BATCH_SIZE)]\<rparr> = Inr (c, s'') \<longrightarrow>
               last (calls s'') =
                 (t, min BATCH_SIZE (tpt - downloaded s), (batch s + 1) * BATCH_SIZE)))"
proof -
  have exact: "downloaded s' < tpt \<longleftrightarrow>
          calls s' \<noteq> [] \<and>
          search src t (limit_of (last (calls s'))) (offset_of (last (calls s'))) = Inr []"
    if run: "while_loop fuel src out t tpt init_state = Some (Inr s')" for fuel s'
    using while_loop_result [OF run loop_head.start]
  proof
    assume "loop_head src out t tpt s' \<and> \<not> downloaded s' < tpt"
    with loop_head_last_call [of src out t tpt s'] show ?thesis by blast
  next
    assume "\<exists>s0. loop_head src out t tpt s0 \<and> downloaded s0 < tpt
              \<and> loop_body src out t tpt s0 = Inr (Break, s')"
    then show ?thesis
      by (auto simp: loop_body_Break limit_of_def offset_of_def)
  qed
  have stop: "while_loop (Suc n) src out t tpt s =
           Some (Inr (s\<lparr>calls := calls s @
                    [(t, min BATCH_SIZE (tpt - downloaded s), batch s * BATCH_SIZE)]\<rparr>))"
    if "downloaded s < tpt"
      and "search src t (min BATCH_SIZE (tpt - downloaded s)) (batch s * BATCH_SIZE) = Inr []"
    for n s
    using that by (simp add: loop_body_def)
  have first: "while_loop (Suc n) src out t tpt init_state =
           Some (Inr \<lparr>downloaded = 0, batch = 0, calls = [(t, min BATCH_SIZE tpt, 0)]\<rparr>)"
    if "0 < tpt" and "search src t (min BATCH_SIZE tpt) 0 = Inr []" for n
    using that by (simp add: loop_body_def init_state_def)
  have fail: "loop_body src out t tpt s =
           Inr (Continue, \<lparr>downloaded = downloaded s, batch = batch s + 1,
                  calls = calls s @
                    [(t, min BATCH_SIZE (tpt - downloaded s), batch s * BATCH_SIZE)]\<rparr>)
         \<and> while_loop (Suc n) src out t tpt s =
             while_loop n src out t tpt
               \<lparr>downloaded = downloaded s, batch = batch s + 1,
                calls = calls s @
                  [(t, min BATCH_SIZE (tpt - downloaded s), batch s * BATCH_SIZE)]\<rparr>
         \<and> (\<forall>c s''. loop_body src out t tpt
               \<lparr>downloaded = downloaded s, batch = batch s + 1,
                calls = calls s @
                  [(t, min BATCH_SIZE (tpt - downloaded s), batch s * BATCH_SIZE)]\<rparr> = Inr (c, s'') \<longrightarrow>
               last (calls s'') =
                 (t, min BATCH_SIZE (tpt - downloaded s), (batch s + 1) * BATCH_SIZE))"
    if g: "downloaded s < tpt"
      and srch: "search src t (min BATCH_SIZE (tpt - downloaded s)) (batch s * BATCH_SIZE) = Inr results"
      and ne: "results \<noteq> []"
      and sub: "submit_all src out results = Inr futures"
      and nok: "\<forall>f\<in>set futures. \<exists>r. f = Inr r \<and> \<not> truthy r"
    for n s results futures
  proof -
    let ?s2 = "\<lparr>downloaded = downloaded s, batch = batch s + 1,
                calls = calls s @
                  [(t, min BATCH_SIZE (tpt - downloaded s), batch s * BATCH_SIZE)]\<rparr>"
    from sub wait_all_all_fail [OF nok] have "dispatch src out (downloaded s) results = Inr (downloaded s)"
      by (simp add: dispatch_def)
    with srch ne have body: "loop_body src out t tpt s = Inr (Continue, ?s2)"
      unfolding loop_body_Continue by simp
    with g have "while_loop (Suc n) src out t tpt s = while_loop n src out t tpt ?s2"
      by simp
    moreover have "last (calls s'') =
                 (t, min BATCH_SIZE (tpt - downloaded s), (batch s + 1) * BATCH_SIZE)"
      if "loop_body src out t tpt ?s2 = Inr (c, s'')" for c s''
      using that by (cases c) (auto simp: loop_body_Break loop_body_Continue)
    ultimately show ?thesis using body by blast
  qed
  from exact stop first fail show ?thesis by blast
qed

theorem empty_page_ends_term_witness:
  "(0::int) < 2
   \<and> search empty_source ''rock'' (min BATCH_SIZE 2) 0 = Inr []
   \<and> while_loop (Suc 0) empty_source ''out'' ''rock'' 2 init_state =
       Some (Inr \<lparr>downloaded = 0, batch = 0, calls = [(''rock'', min BATCH_SIZE 2, 0)]\<rparr>)
   \<and> downloaded init_state < 2
   \<and> search one_bad_track_source ''rock'' (min BATCH_SIZE (2 - downloaded init_state))
        (batch init_state * BATCH_SIZE) = Inr [track ''a'']
   \<and> submit_all one_bad_track_source ''out'' [track ''a''] = Inr [Inr PyNone]
   \<and> while_loop (Suc (Suc 0)) one_bad_track_source ''out'' ''rock'' 2 init_state =
       Some (Inr \<lparr>downloaded = 0, batch = 1, calls = [(''rock'', 2, 0), (''rock'', 2, 50)]\<rparr>)"
proof -
  note first_page = empty_page_ends_term [of empty_source "''out''" "''rock''" 2,
      THEN conjunct2, THEN conjunct2, THEN conjunct1, rule_format]
  note all_fail = empty_page_ends_term [of one_bad_track_source "''out''" "''rock''" 2,
      THEN conjunct2, THEN conjunct2, THEN conjunct2, rule_format]
  note stop = empty_page_ends_term [of one_bad_track_source "''out''" "''rock''" 2,
      THEN conjunct2, THEN conjunct1, rule_format]
  have pos: "(0::int) < 2" by simp
  have none: "search empty_source ''rock'' (min BATCH_SIZE 2) 0 = Inr []"
    by (simp add: empty_source_def catalogue_source_def)
  have guard: "downloaded init_state < 2" by (simp add: init_state_def)
  have page: "search one_bad_track_source ''rock'' (min BATCH_SIZE (2 - downloaded init_state))
        (batch init_state * BATCH_SIZE) = Inr [track ''a'']"
    by (simp add: run_simps)
  have futures: "submit_all one_bad_track_source ''out'' [track ''a''] = Inr [Inr PyNone]"
    by (simp add: run_simps)
  from all_fail [where s = init_state and results = "[track ''a'']"
      and futures = "[Inr PyNone]" and n = "Suc 0"] guard page futures
  have "while_loop (Suc (Suc 0)) one_bad_track_source ''out'' ''rock'' 2 init_state =
        while_loop (Suc 0) one_bad_track_source ''out'' ''rock'' 2
          \<lparr>downloaded = 0, batch = 1, calls = [(''rock'', 2, 0)]\<rparr>"
    by (simp add: init_state_def BATCH_SIZE_def)
  also from stop [of "\<lparr>downloaded = 0, batch = 1, calls = [(''rock'', 2, 0)]\<rparr>" 0]
  have "\<dots> = Some (Inr \<lparr>downloaded = 0, batch = 1, calls = [(''rock'', 2, 0), (''rock'', 2, 50)]\<rparr>)"
    by (simp add: run_simps)
  finally have run: "while_loop (Suc (Suc 0)) one_bad_track_source ''out'' ''rock'' 2 init_state =
       Some (Inr \<lparr>downloaded = 0, batch = 1, calls = [(''rock'', 2, 0), (''rock'', 2, 50)]\<rparr>)" .
  from pos none first_page [OF pos none, of 0] guard page futures run show ?thesis
    by blast
qed

text \<open>
  C4, as the code has it. The offset of a search call is \<open>batch * BATCH_SIZE\<close>: after
  each pass it advances by \<open>BATCH_SIZE\<close>, whatever size was requested and however
  many downloads succeeded. The requested size is \<open>min BATCH_SIZE (tpt - downloaded)\<close>,
  between 1 and \<open>BATCH_SIZE\<close>. So the offset of the call number \<open>k\<close> (from 0) is
  \<open>k * BATCH_SIZE\<close>; the sum of the sizes requested before is at most that, and equal
  to it only when every earlier request was a full page.
\<close>

theorem offset_advances_by_batch_size:
  "(\<forall>s c s'. loop_body src out t tpt s = Inr (c, s') \<longrightarrow>
       last (calls s') = (t, min BATCH_SIZE (tpt - downloaded s), batch s * BATCH_SIZE))
   \<and> (\<forall>s s'. loop_body src out t tpt s = Inr (Continue, s') \<longrightarrow>
       batch s' * BATCH_SIZE = batch s * BATCH_SIZE + BATCH_SIZE)
   \<and> (\<forall>fuel s' k. while_loop fuel src out t tpt init_state = Some (Inr s') \<longrightarrow>
       k < length (calls s') \<longrightarrow>
         offset_of (calls s' ! k) = int k * BATCH_SIZE
         \<and> 1 \<le> limit_of (calls s' ! k) \<and> limit_of (calls s' ! k) \<le> BATCH_SIZE
         \<and> sum_list (map limit_of (take k (calls s'))) \<le> offset_of (calls s' ! k)
         \<and> (sum_list (map limit_of (take k (calls s'))) = offset_of (calls s' ! k)
              \<longleftrightarrow> (\<forall>j<k. limit_of (calls s' ! j) = BATCH_SIZE)))"
proof -
  have req: "last (calls s') = (t, min BATCH_SIZE (tpt - downloaded s), batch s * BATCH_SIZE)"
    if "loop_body src out t tpt s = Inr (c, s')" for s c s'
    using that by (cases c) (auto simp: loop_body_Break loop_body_Continue)
  have adv: "batch s' * BATCH_SIZE = batch s * BATCH_SIZE + BATCH_SIZE"
    if "loop_body src out t tpt s = Inr (Continue, s')" for s s'
    using that by (auto simp: loop_body_Continue algebra_simps)
  have trace: "offset_of (calls s' ! k) = int k * BATCH_SIZE
         \<and> 1 \<le> limit_of (calls s' ! k) \<and> limit_of (calls s' ! k) \<le> BATCH_SIZE
         \<and> sum_list (map limit_of (take k (calls s'))) \<le> offset_of (calls s' ! k)
         \<and> (sum_list (map limit_of (take k (calls s'))) = offset_of (calls s' ! k)
              \<longleftrightarrow> (\<forall>j<k. limit_of (calls s' ! j) = BATCH_SIZE))"
    if run: "while_loop fuel src out t tpt init_state = Some (Inr s')"
      and k: "k < length (calls s')" for fuel s' k
  proof -
    from k have "\<forall>j<k. limit_of (calls s' ! j) \<le> BATCH_SIZE"
      using while_loop_calls [OF run] by simp
    with sum_limits [of k "calls s'" BATCH_SIZE] k
    have "sum_list (map limit_of (take k (calls s'))) \<le> int k * BATCH_SIZE
          \<and> (sum_list (map limit_of (take k (calls s'))) = int k * BATCH_SIZE
               \<longleftrightarrow> (\<forall>j<k. limit_of (calls s' ! j) = BATCH_SIZE))"
      by simp
    with while_loop_calls [OF run k] show ?thesis by simp
  qed
  from req adv trace show ?thesis by blast
qed

theorem offset_advances_by_batch_size_witness:
  "while_loop 2 three_tracks_source ''out'' ''rock'' 3 init_state =
     Some (Inr \<lparr>downloaded = 2, batch = 1, calls = [(''rock'', 3, 0), (''rock'', 1, 50)]\<rparr>)
   \<and> (1::nat) < length [(''rock'', 3::int, 0::int), (''rock'', 1, 50)]
   \<and> offset_of ([(''rock'', 3, 0), (''rock'', 1, 50)] ! 1) = int 1 * BATCH_SIZE
   \<and> sum_list (map limit_of (take 1 [(''rock'', 3, 0), (''rock'', 1, 50)]))
        \<le> offset_of ([(''rock'', 3, 0), (''rock'', 1, 50)] ! 1)"
proof -
  note trace = offset_advances_by_batch_size [of three_tracks_source "''out''" "''rock''" 3,
      THEN conjunct2, THEN conjunct2, rule_format]
  have run: "while_loop 2 three_tracks_source ''out'' ''rock'' 3 init_state =
     Some (Inr \<lparr>downloaded = 2, batch = 1, calls = [(''rock'', 3, 0), (''rock'', 1, 50)]\<rparr>)"
    by (simp add: numeral_2_eq_2 run_simps)
  have k: "(1::nat) < length [(''rock'', 3::int, 0::int), (''rock'', 1, 50)]" by simp
  from trace [OF run, of 1] k run show ?thesis by simp
qed

text \<open>
  C4 with the offset advancing by the requested size does not hold: with a quota of 3
  and three tracks of which two download, the second search asks for 1 result at offset
  50, while the size requested before was 3.
\<close>

theorem offset_differs_from_requested_sizes:
  "while_loop 2 three_tracks_source ''out'' ''rock'' 3 init_state =
     Some (Inr \<lparr>downloaded = 2, batch = 1, calls = [(''rock'', 3, 0), (''rock'', 1, 50)]\<rparr>)
   \<and> offset_of ([(''rock'', 3, 0), (''rock'', 1, 50)] ! 1)
       \<noteq> sum_list (map limit_of (take 1 [(''rock'', 3, 0), (''rock'', 1, 50)]))"
  by (simp add: numeral_2_eq_2 run_simps offset_of_def limit_of_def)

section \<open>The thread pool\<close>




section \<open>Errors in a run\<close>

text \<open>
  C5, as the code has it. Neither \<open>download_genre_tracks\<close> nor \<open>main\<close> has a handler:
  an exception leaving a search call or the dispatch of a page ends the loop of the
  term with that exception, which then leaves the loop over the terms, the genre and
  \<open>main\<close>; the terms and genres that follow are not processed.
\<close>

theorem term_error_aborts_run:
  "(\<forall>n s e. downloaded s < tpt \<longrightarrow>
       search src t (min BATCH_SIZE (tpt - downloaded s)) (batch s * BATCH_SIZE) = Inl e \<longrightarrow>
       while_loop (Suc n) src out t tpt s = Some (Inl e))
   \<and> (\<forall>n s results e. downloaded s < tpt \<longrightarrow>
       search src t (min BATCH_SIZE (tpt - downloaded s)) (batch s * BATCH_SIZE) = Inr results \<longrightarrow>
       results \<noteq> [] \<longrightarrow> dispatch src out (downloaded s) results = Inl e \<longrightarrow>
       while_loop (Suc n) src out t tpt s = Some (Inl e))
   \<and> (\<forall>fuel before after rs e.
       term_loop fuel src out tpt before = Some (Inr rs) \<longrightarrow>
       while_loop fuel src out t tpt init_state = Some (Inl e) \<longrightarrow>
       term_loop fuel src out tpt (before @ t # after) = Some (Inl e))
   \<and> (\<forall>fuel genre search_terms count e.
       tracks_per_term count search_terms = Inr tpt \<longrightarrow>
       term_loop fuel src (output_dir_of genre) tpt search_terms = Some (Inl e) \<longrightarrow>
       download_genre_tracks fuel src genre search_terms count = Some (Inl e))
   \<and> (\<forall>fuel gs genre cfg rest finished e.
       main fuel src gs = Some (Inr finished) \<longrightarrow>
       download_genre_tracks fuel src genre (cfg_search_terms cfg) (cfg_count cfg) = Some (Inl e) \<longrightarrow>
       main fuel src (gs @ (genre, cfg) # rest) = Some (Inl e))"
proof -
  have a: "while_loop (Suc n) src out t tpt s = Some (Inl e)"
    if "downloaded s < tpt"
      and "search src t (min BATCH_SIZE (tpt - downloaded s)) (batch s * BATCH_SIZE) = Inl e"
    for n s e
    using that by (simp add: loop_body_def)
  have b: "while_loop (Suc n) src out t tpt s = Some (Inl e)"
    if "downloaded s < tpt"
      and "search src t (min BATCH_SIZE (tpt - downloaded s)) (batch s * BATCH_SIZE) = Inr results"
      and "results \<noteq> []" and "dispatch src out (downloaded s) results = Inl e"
    for n s results e
    using that by (simp add: loop_body_def)
  have c: "download_genre_tracks fuel src genre search_terms count = Some (Inl e)"
    if "tracks_per_term count search_terms = Inr tpt"
      and "term_loop fuel src (output_dir_of genre) tpt search_terms = Some (Inl e)"
    for fuel genre search_terms count e
    using that by (simp add: download_genre_tracks_def)
  from a have A: "\<forall>n s e. downloaded s < tpt \<longrightarrow>
       search src t (min BATCH_SIZE (tpt - downloaded s)) (batch s * BATCH_SIZE) = Inl e \<longrightarrow>
       while_loop (Suc n) src out t tpt s = Some (Inl e)"
    by blast
  from b have B: "\<forall>n s results e. downloaded s < tpt \<longrightarrow>
       search src t (min BATCH_SIZE (tpt - downloaded s)) (batch s * BATCH_SIZE) = Inr results \<longrightarrow>
       results \<noteq> [] \<longrightarrow> dispatch src out (downloaded s) results = Inl e \<longrightarrow>
       while_loop (Suc n) src out t tpt s = Some (Inl e)"
    by blast
  from term_loop_append_raise have C: "\<forall>fuel before after rs e.
       term_loop fuel src out tpt before = Some (Inr rs) \<longrightarrow>
       while_loop fuel src out t tpt init_state = Some (Inl e) \<longrightarrow>
       term_loop fuel src out tpt (before @ t # after) = Some (Inl e)"
    by blast
  from c have D: "\<forall>fuel genre search_terms count e.
       tracks_per_term count search_terms = Inr tpt \<longrightarrow>
       term_loop fuel src (output_dir_of genre) tpt search_terms = Some (Inl e) \<longrightarrow>
       download_genre_tracks fuel src genre search_terms count = Some (Inl e)"
    by blast
  from main_append_raise have E: "\<forall>fuel gs genre cfg rest finished e.
       main fuel src gs = Some (Inr finished) \<longrightarrow>
       download_genre_tracks fuel src genre (cfg_search_terms cfg) (cfg_count cfg) = Some (Inl e) \<longrightarrow>
       main fuel src (gs @ (genre, cfg) # rest) = Some (Inl e)"
    by blast
  show ?thesis by (intro conjI A B C D E)
qed

theorem term_error_aborts_run_witness:
  "downloaded \<lparr>downloaded = 1, batch = 1, calls = [(''rock'', 2, 0)]\<rparr> < 2
   \<and> search failing_source ''rock'' 1 50 = Inl (SourceError ''unreachable'')
   \<and> while_loop (Suc 0) failing_source ''out'' ''rock'' 2
        \<lparr>downloaded = 1, batch = 1, calls = [(''rock'', 2, 0)]\<rparr> =
       Some (Inl (SourceError ''unreachable''))
   \<and> main 2 failing_source [] = Some (Inr [])
   \<and> download_genre_tracks 2 failing_source ''rock'' [''rock''] 2 =
       Some (Inl (SourceError ''unreachable''))
   \<and> main 2 failing_source
       ([] @ (''rock'', \<lparr>cfg_search_terms = [''rock''], cfg_count = 2\<rparr>) #
        [(''jazz'', \<lparr>cfg_search_terms = [''jazz''], cfg_count = 1\<rparr>)]) =
     Some (Inl (SourceError ''unreachable''))"
proof -
  note raise = term_error_aborts_run [of 2 failing_source "''rock''" "''out''",
      THEN conjunct1, rule_format]
  note abort = term_error_aborts_run [of 2 failing_source "''rock''" "''out''",
      THEN conjunct2, THEN conjunct2, THEN conjunct2, THEN conjunct2, rule_format]
  have guard: "downloaded \<lparr>downloaded = 1, batch = 1, calls = [(''rock'', 2, 0)]\<rparr> < 2"
    by simp
  have srch: "search failing_source ''rock'' 1 50 = Inl (SourceError ''unreachable'')"
    by (simp add: failing_source_def)
  from raise [of "\<lparr>downloaded = 1, batch = 1, calls = [(''rock'', 2, 0)]\<rparr>"
      "SourceError ''unreachable''" 0] srch
  have loop: "while_loop (Suc 0) failing_source ''out'' ''rock'' 2
        \<lparr>downloaded = 1, batch = 1, calls = [(''rock'', 2, 0)]\<rparr> =
       Some (Inl (SourceError ''unreachable''))"
    by (simp add: BATCH_SIZE_def)
  have no_genre: "main 2 failing_source [] = Some (Inr [])" by simp
  have genre: "download_genre_tracks 2 failing_source ''rock''
       (cfg_search_terms \<lparr>cfg_search_terms = [''rock''], cfg_count = 2\<rparr>)
       (cfg_count \<lparr>cfg_search_terms = [''rock''], cfg_count = 2\<rparr>) =
       Some (Inl (SourceError ''unreachable''))"
    by (simp add: numeral_2_eq_2 run_simps)
  from abort [where fuel = 2 and gs = "[]" and finished = "[]" and genre = "''rock''"
      and cfg = "\<lparr>cfg_search_terms = [''rock''], cfg_count = 2\<rparr>"
      and e = "SourceError ''unreachable''"
      and rest = "[(''jazz'', \<lparr>cfg_search_terms = [''jazz''], cfg_count = 1\<rparr>)]"]
    no_genre genre
  have "main 2 failing_source
       ([] @ (''rock'', \<lparr>cfg_search_terms = [''rock''], cfg_count = 2\<rparr>) #
        [(''jazz'', \<lparr>cfg_search_terms = [''jazz''], cfg_count = 1\<rparr>)]) =
     Some (Inl (SourceError ''unreachable''))"
    by blast
  with guard srch loop no_genre genre show ?thesis by simp
qed

text \<open>
  C5 with the error caught and the run continued does not hold: a source whose second
  search raises makes the run over two genres end with that exception, although the
  second genre alone runs to its end.
\<close>

theorem search_error_aborts_main:
  "while_loop 2 failing_source (output_dir_of ''rock'') ''rock'' 2 init_state =
     Some (Inl (SourceError ''unreachable''))
   \<and> main 2 failing_source
       [(''rock'', \<lparr>cfg_search_terms = [''rock''], cfg_count = 2\<rparr>),
        (''jazz'', \<lparr>cfg_search_terms = [''jazz''], cfg_count = 1\<rparr>)] =
     Some (Inl (SourceError ''unreachable''))
   \<and> main 2 failing_source [(''jazz'', \<lparr>cfg_search_terms = [''jazz''], cfg_count = 1\<rparr>)] =
     Some (Inr [(''jazz'', [(''jazz'', \<lparr>downloaded = 1, batch = 1, calls = [(''jazz'', 1, 0)]\<rparr>)])])"
  by (simp add: numeral_2_eq_2 run_simps)

text \<open>
  C6, as the code has it. The quota fails exactly when there is no search term,
  whatever the target, and the error is \<^verbatim>\<open>ZeroDivisionError\<close>; it leaves
  \<open>download_genre_tracks\<close> and \<open>main\<close>, so the genres that follow are not processed.
\<close>

theorem empty_search_terms_abort_run:
  "(tracks_per_term count search_terms = Inl e \<longleftrightarrow> search_terms = [] \<and> e = ZeroDivisionError)
   \<and> (\<forall>fuel src genre. search_terms = [] \<longrightarrow>
         download_genre_tracks fuel src genre search_terms count = Some (Inl ZeroDivisionError))
   \<and> (\<forall>fuel src gs finished genre cfg rest.
         main fuel src gs = Some (Inr finished) \<longrightarrow> cfg_search_terms cfg = [] \<longrightarrow>
         main fuel src (gs @ (genre, cfg) # rest) = Some (Inl ZeroDivisionError))"
proof -
  have q: "tracks_per_term count search_terms = Inl e \<longleftrightarrow> search_terms = [] \<and> e = ZeroDivisionError"
    by (auto simp: tracks_per_term_def)
  have g: "download_genre_tracks fuel src genre [] c = Some (Inl ZeroDivisionError)"
    for fuel src genre c
    by (simp add: download_genre_tracks_def tracks_per_term_def)
  have m: "main fuel src (gs @ (genre, cfg) # rest) = Some (Inl ZeroDivisionError)"
    if "main fuel src gs = Some (Inr finished)" and "cfg_search_terms cfg = []"
    for fuel src gs finished genre cfg rest
    using main_append_raise [OF that(1), of genre cfg ZeroDivisionError rest] g that(2)
    by simp
  from q g m show ?thesis by blast
qed

theorem empty_search_terms_abort_run_witness:
  "tracks_per_term 5 [] = Inl ZeroDivisionError
   \<and> main 2 failing_source [] = Some (Inr [])
   \<and> cfg_search_terms \<lparr>cfg_search_terms = [], cfg_count = 5\<rparr> = []
   \<and> main 2 failing_source
       ([] @ (''empty'', \<lparr>cfg_search_terms = [], cfg_count = 5\<rparr>) #
        [(''jazz'', \<lparr>cfg_search_terms = [''jazz''], cfg_count = 1\<rparr>)]) =
     Some (Inl ZeroDivisionError)"
proof -
  note quota = empty_search_terms_abort_run [of 5 "[]" ZeroDivisionError, THEN conjunct1]
  note abort = empty_search_terms_abort_run [of 5 "[]" ZeroDivisionError,
      THEN conjunct2, THEN conjunct2, rule_format]
  have no_genre: "main 2 failing_source [] = Some (Inr [])" by simp
  have none: "cfg_search_terms \<lparr>cfg_search_terms = [], cfg_count = 5\<rparr> = []" by simp
  from quota have q: "tracks_per_term 5 [] = Inl ZeroDivisionError" by simp
  from abort [where fuel = 2 and src = failing_source and gs = "[]" and finished = "[]"
      and genre = "''empty''" and cfg = "\<lparr>cfg_search_terms = [], cfg_count = 5\<rparr>"
      and rest = "[(''jazz'', \<lparr>cfg_search_terms = [''jazz''], cfg_count = 1\<rparr>)]"]
    no_genre none
  have "main 2 failing_source
       ([] @ (''empty'', \<lparr>cfg_search_terms = [], cfg_count = 5\<rparr>) #
        [(''jazz'', \<lparr>cfg_search_terms = [''jazz''], cfg_count = 1\<rparr>)]) =
     Some (Inl ZeroDivisionError)"
    by blast
  with q no_genre none show ?thesis by blast
qed

text \<open>
  C6 with a failure only for a positive target, fatal for one genre only, does not
  hold: with no search term and a target of 0 the quota fails, and a run whose first
  genre has no search term ends with the error.
\<close>

theorem no_terms_no_target_aborts_main:
  "tracks_per_term 0 [] = Inl ZeroDivisionError
   \<and> main 2 failing_source
       [(''empty'', \<lparr>cfg_search_terms = [], cfg_count = 0\<rparr>),
        (''jazz'', \<lparr>cfg_search_terms = [''jazz''], cfg_count = 1\<rparr>)] =
     Some (Inl ZeroDivisionError)"
  by (simp add: run_simps)

section \<open>The search of the media source\<close>

text \<open>
  C8. \<open>YouTubeAPI.search\<close> never lets an error reach its caller, for any query, limit
  and offset: it always returns a list, and whenever the body of its \<^verbatim>\<open>try\<close> block
  raises (in particular when the external call raises) the list is empty.
\<close>

theorem search_never_raises:
  "search (YouTubeAPI y d) query limit offset = Inr (youtube_search y query limit offset)
   \<and> (\<forall>e. search (YouTubeAPI y d) query limit offset \<noteq> Inl e)
   \<and> (\<forall>e. search_body y query limit offset = Inl e \<longrightarrow>
          search (YouTubeAPI y d) query limit offset = Inr [])
   \<and> (\<forall>e. y (search_opts limit offset) (search_url query limit offset) False = Inl e \<longrightarrow>
          search (YouTubeAPI y d) query limit offset = Inr [])"
  by (simp add: YouTubeAPI_def youtube_search_def search_body_def)

theorem search_never_raises_witness:
  "broken_ydl (search_opts 5 0) (search_url ''rock'' 5 0) False = Inl (SourceError ''network'')
   \<and> search_body broken_ydl ''rock'' 5 0 = Inl (SourceError ''network'')
   \<and> search (YouTubeAPI broken_ydl always_downloads) ''rock'' 5 0 = Inr []"
proof -
  have raised: "broken_ydl (search_opts 5 0) (search_url ''rock'' 5 0) False
                  = Inl (SourceError ''network'')"
    by (simp add: broken_ydl_def)
  have body: "search_body broken_ydl ''rock'' 5 0 = Inl (SourceError ''network'')"
    by (simp add: search_body_def broken_ydl_def)
  from search_never_raises [of broken_ydl always_downloads "''rock''" 5 0] raised
  have "search (YouTubeAPI broken_ydl always_downloads) ''rock'' 5 0 = Inr []"
    by blast
  with raised body show ?thesis by blast
qed

text \<open>
  C10. For \<open>limit \<ge> 0\<close> and \<open>offset \<ge> 0\<close>, and an external library that honours
  \<^verbatim>\<open>playlistend\<close>: \<open>YouTubeAPI.search\<close> returns at most \<open>limit\<close> records; the
  options of the request carry \<^verbatim>\<open>playlistend = limit + offset\<close>; the first \<open>offset\<close>
  entries of the answer are skipped; every returned record has exactly the keys
  \<^verbatim>\<open>title\<close>, \<^verbatim>\<open>url\<close>, \<^verbatim>\<open>duration\<close> and \<^verbatim>\<open>id\<close>.
\<close>

theorem search_returns_at_most_limit:
  assumes "honours_playlistend y" and "0 \<le> limit" and "0 \<le> offset"
  shows "int (length (youtube_search y query limit offset)) \<le> limit
       \<and> map_of (search_opts limit offset) ''playlistend'' = Some (PyInt (limit + offset))
       \<and> (\<forall>info entries.
             y (search_opts limit offset) (search_url query limit offset) False = Inr (Some info) \<longrightarrow>
             map_of info ''entries'' = Some (PyList entries) \<longrightarrow>
             search_body y query limit offset = videos_of (drop (nat offset) entries))
       \<and> (\<forall>v. v \<in> set (youtube_search y query limit offset) \<longrightarrow>
             map fst v = [''title'', ''url'', ''duration'', ''id''])"
proof -
  have skip: "search_body y query limit offset = videos_of (drop (nat offset) entries)"
    if "y (search_opts limit offset) (search_url query limit offset) False = Inr (Some info)"
      and "map_of info ''entries'' = Some (PyList entries)" for info entries
    using search_body_entries [of y limit offset query info entries] that assms(3)
    by (simp add: slice_from_def)
  from youtube_search_length [OF assms] search_opts_playlistend skip youtube_search_keys
  show ?thesis by blast
qed

theorem search_returns_at_most_limit_witness:
  "honours_playlistend three_entries \<and> (0::int) \<le> 2 \<and> (0::int) \<le> 1
   \<and> youtube_search three_entries ''rock'' 2 1 =
       [[(''title'', PyStr ''three''), (''url'', PyStr ''u3''), (''duration'', PyInt 0),
         (''id'', PyStr ''3'')]]
   \<and> int (length (youtube_search three_entries ''rock'' 2 1)) \<le> 2
   \<and> map_of (search_opts 2 1) ''playlistend'' = Some (PyInt 3)"
proof -
  have val: "youtube_search three_entries ''rock'' 2 1 =
       [[(''title'', PyStr ''three''), (''url'', PyStr ''u3''), (''duration'', PyInt 0),
         (''id'', PyStr ''3'')]]"
    by (simp add: youtube_search_def search_body_def search_opts_def ydl_opts_def
        three_entries_def slice_from_def video_of_def dict_get_def)
  from search_returns_at_most_limit [OF honours_three_entries, of 2 1 "''rock''"]
  have "int (length (youtube_search three_entries ''rock'' 2 1)) \<le> 2
        \<and> map_of (search_opts 2 1) ''playlistend'' = Some (PyInt (2 + 1))"
    by simp
  with honours_three_entries val show ?thesis by simp
qed

end
